theory Spec2Isabelle
  imports Complex_Main
begin

section \<open>JavaScript values\<close>

text \<open>
  Plain data: what \<open>JSON.parse\<close> returns and what \<open>JSON.stringify\<close> writes without
  loss. The fields of a recorded action and the content of a snapshot file are of this
  type. Numbers are taken in their documented domain (finite numbers) and idealised as
  reals: the rounding of IEEE doubles is not modelled.
\<close>

datatype json =
    JNull
  | JBool bool
  | JNum real
  | JStr string
  | JArr "json list"
  | JObj "(string \<times> json) list"

text \<open>
  A value the program passes on without looking inside (a subtask, a result, an error),
  or the outcome of reading a property: plain data, or \<open>undefined\<close>.
\<close>

datatype jsval = Undefined | Val json

text \<open>ToBoolean, as the operator \<open>||\<close> applies it.\<close>

fun truthy_json :: "json \<Rightarrow> bool" where
  "truthy_json JNull = False"
| "truthy_json (JBool b) = b"
| "truthy_json (JNum r) = (r \<noteq> 0)"
| "truthy_json (JStr s) = (s \<noteq> [])"
| "truthy_json (JArr xs) = True"
| "truthy_json (JObj fs) = True"

fun truthy :: "jsval \<Rightarrow> bool" where
  "truthy Undefined = False"
| "truthy (Val j) = truthy_json j"

text \<open>\<open>a || b\<close>: the left operand when it is truthy, else the right one.\<close>

definition js_or :: "jsval \<Rightarrow> jsval \<Rightarrow> jsval" where
  "js_or a b = (if truthy a then a else b)"

text \<open>
  The result of a division the program computes itself. JavaScript's \<open>/\<close> does not fail on
  a zero divisor: \<open>0 / 0\<close> is \<open>NaN\<close> and \<open>x / 0\<close> is an infinity. HOL's \<open>x / 0 = 0\<close> would
  hide that, so the quotient has a type of its own.
\<close>

datatype jsnum = Num real | NaN | PosInf | NegInf

definition js_div :: "real \<Rightarrow> real \<Rightarrow> jsnum" where
  "js_div x y =
     (if y \<noteq> 0 then Num (x / y)
      else if x = 0 then NaN
      else if 0 < x then PosInf else NegInf)"

text \<open>\<open>a - b\<close> on such numbers, as a sort comparator computes it.\<close>

fun js_sub :: "jsnum \<Rightarrow> jsnum \<Rightarrow> jsnum" where
  "js_sub (Num a) (Num b) = Num (a - b)"
| "js_sub NaN _ = NaN"
| "js_sub _ NaN = NaN"
| "js_sub PosInf PosInf = NaN"
| "js_sub NegInf NegInf = NaN"
| "js_sub PosInf _ = PosInf"
| "js_sub NegInf _ = NegInf"
| "js_sub (Num a) PosInf = NegInf"
| "js_sub (Num a) NegInf = PosInf"

text \<open>\<open>v > 0\<close>; a comparison with \<open>NaN\<close> is false.\<close>

fun js_pos :: "jsnum \<Rightarrow> bool" where
  "js_pos (Num r) = (0 < r)"
| "js_pos PosInf = True"
| "js_pos NaN = False"
| "js_pos NegInf = False"

text \<open>\<open>a >= b\<close>; false as soon as one side is \<open>NaN\<close>.\<close>

fun js_ge :: "jsnum \<Rightarrow> jsnum \<Rightarrow> bool" where
  "js_ge (Num a) (Num b) = (b \<le> a)"
| "js_ge NaN _ = False"
| "js_ge _ NaN = False"
| "js_ge PosInf _ = True"
| "js_ge _ NegInf = True"
| "js_ge NegInf _ = False"
| "js_ge (Num a) PosInf = False"

section \<open>Library behaviour: \<open>Array.prototype.sort\<close> and \<open>Map\<close>\<close>

text \<open>
  \<open>xs.sort(cmp)\<close> is stable: \<open>b\<close> moves in front of \<open>a\<close> only when \<open>cmp(a, b) > 0\<close>.
  The model is the stable insertion sort with that test; for a comparator that is
  consistent (as the two comparators of the program are on finite numbers) every stable
  sort gives this result.
\<close>

fun js_insert :: "('a \<Rightarrow> 'a \<Rightarrow> jsnum) \<Rightarrow> 'a \<Rightarrow> 'a list \<Rightarrow> 'a list" where
  "js_insert cmp x [] = [x]"
| "js_insert cmp x (y # ys) =
     (if js_pos (cmp x y) then y # js_insert cmp x ys else x # y # ys)"

fun js_sort :: "('a \<Rightarrow> 'a \<Rightarrow> jsnum) \<Rightarrow> 'a list \<Rightarrow> 'a list" where
  "js_sort cmp [] = []"
| "js_sort cmp (x # xs) = js_insert cmp x (js_sort cmp xs)"

text \<open>
  A \<open>Map\<close> keeps its entries in insertion order, one per key: the association list of its
  entries. \<open>set\<close> on a key that is present replaces the value where the entry stands; on a
  new key it appends the entry.
\<close>

type_synonym ('k, 'v) jsmap = "('k \<times> 'v) list"

fun Map_set :: "('k, 'v) jsmap \<Rightarrow> 'k \<Rightarrow> 'v \<Rightarrow> ('k, 'v) jsmap" where
  "Map_set [] k v = [(k, v)]"
| "Map_set ((k', v') # m) k v =
     (if k' = k then (k, v) # m else (k', v') # Map_set m k v)"

definition Map_get :: "('k, 'v) jsmap \<Rightarrow> 'k \<Rightarrow> 'v option" where
  "Map_get m k = map_of m k"

definition Map_has :: "('k, 'v) jsmap \<Rightarrow> 'k \<Rightarrow> bool" where
  "Map_has m k = (k \<in> fst ` set m)"

definition Map_size :: "('k, 'v) jsmap \<Rightarrow> nat" where
  "Map_size m = length m"

section \<open>The multi-agent coordinator\<close>

text \<open>
  What \<open>agent.instance.execute(subtask)\<close> does: it returns a promise that is fulfilled
  with a result or rejected with an error, or it throws before returning one (as it also
  does when what it returns has no \<open>then\<close>).
\<close>

datatype promise = PFulfilled jsval | PRejected jsval

datatype exec_outcome = Returns promise | Throws jsval

record agent_data =
  agent_instance :: "jsval \<Rightarrow> exec_outcome"
  status :: string
  tasksCompleted :: nat
  successRate :: real

text \<open>The object both handlers of \<open>distributeTask\<close> build; an absent field reads \<open>undefined\<close>.\<close>

record task_result =
  agentId :: string
  success :: bool
  result :: jsval
  error :: jsval

text \<open>A settled promise, and the entry \<open>Promise.allSettled\<close> reports for it.\<close>

datatype settled = Fulfilled task_result | Rejected jsval

record task_entry =
  te_taskId :: string
  te_results :: "settled list"
  te_timestamp :: nat

record coordinator =
  agents :: "(string, agent_data) jsmap"
  tasks :: "(string, task_entry) jsmap"

record summary =
  totalTasks :: nat
  successful :: nat
  failed :: nat
  summary_successRate :: jsnum
  data :: "jsval list"
  errors :: "jsval list"

definition registerAgent :: "coordinator \<Rightarrow> string \<Rightarrow> (jsval \<Rightarrow> exec_outcome) \<Rightarrow> coordinator" where
  "registerAgent c aid agent =
     c\<lparr>agents := Map_set (agents c) aid
          \<lparr>agent_instance = agent, status = ''ready'', tasksCompleted = 0, successRate = 1\<rparr>\<rparr>"

text \<open>The comparator \<open>(a, b) => b[1].successRate - a[1].successRate\<close>.\<close>

definition by_successRate :: "string \<times> agent_data \<Rightarrow> string \<times> agent_data \<Rightarrow> jsnum" where
  "by_successRate a b = js_sub (Num (successRate (snd b))) (Num (successRate (snd a)))"

definition readyAgents :: "coordinator \<Rightarrow> (string \<times> agent_data) list" where
  "readyAgents c =
     js_sort by_successRate (filter (\<lambda>(_, d). status d = ''ready'') (agents c))"

text \<open>
  The loop of \<open>allocateSubtasks\<close>: \<open>allocations\<close> is a \<open>Map\<close> keyed by the agent's id, and
  \<open>agentIndex\<close> counts the subtasks seen.
\<close>

fun allocate_loop ::
  "(string \<times> agent_data) list \<Rightarrow> jsval list \<Rightarrow> nat \<Rightarrow> (string, jsval) jsmap \<Rightarrow> (string, jsval) jsmap"
where
  "allocate_loop ready [] agentIndex allocations = allocations"
| "allocate_loop ready (subtask # rest) agentIndex allocations =
     (if length ready = 0 then allocations
      else allocate_loop ready rest (agentIndex + 1)
             (Map_set allocations (fst (ready ! (agentIndex mod length ready))) subtask))"

definition allocateSubtasks :: "coordinator \<Rightarrow> jsval list \<Rightarrow> (string, jsval) jsmap" where
  "allocateSubtasks c subtasks = allocate_loop (readyAgents c) subtasks 0 []"

text \<open>
  \<open>aggregateResults\<close>. For a rejected entry \<open>r.value\<close> is \<open>undefined\<close>: the filter's \<open>||\<close>
  never reads it there, but \<open>r.value.error\<close> in the \<open>errors\<close> mapping throws a TypeError.
  A fulfilled entry has no \<open>reason\<close>, which reads \<open>undefined\<close>.
\<close>

datatype js_error = TypeError | Thrown jsval

fun is_successful :: "settled \<Rightarrow> bool" where
  "is_successful (Fulfilled v) = success v"
| "is_successful (Rejected e) = False"

fun is_failed :: "settled \<Rightarrow> bool" where
  "is_failed (Rejected e) = True"
| "is_failed (Fulfilled v) = (\<not> success v)"

fun result_of :: "settled \<Rightarrow> jsval" where
  "result_of (Fulfilled v) = result v"
| "result_of (Rejected e) = Undefined"

fun reason_of :: "settled \<Rightarrow> jsval" where
  "reason_of (Rejected e) = e"
| "reason_of (Fulfilled v) = Undefined"

fun error_of :: "settled \<Rightarrow> js_error + jsval" where
  "error_of (Fulfilled v) = Inr (js_or (error v) (reason_of (Fulfilled v)))"
| "error_of (Rejected e) = Inl TypeError"

fun map_errors :: "settled list \<Rightarrow> js_error + jsval list" where
  "map_errors [] = Inr []"
| "map_errors (r # rs) =
     (case error_of r of
        Inl e \<Rightarrow> Inl e
      | Inr v \<Rightarrow> (case map_errors rs of Inl e \<Rightarrow> Inl e | Inr vs \<Rightarrow> Inr (v # vs)))"

definition aggregateResults :: "settled list \<Rightarrow> js_error + summary" where
  "aggregateResults results =
     (let successful = filter is_successful results;
          failed = filter is_failed results
      in case map_errors failed of
           Inl e \<Rightarrow> Inl e
         | Inr errs \<Rightarrow>
             Inr \<lparr>totalTasks = length results,
                  successful = length successful,
                  failed = length failed,
                  summary_successRate = js_div (real (length successful)) (real (length results)),
                  data = map result_of successful,
                  errors = errs\<rparr>)"

text \<open>
  The promise \<open>execute(subtask).then(onResult).catch(onError)\<close>: \<open>then\<close> maps a fulfilled
  promise and passes a rejected one on, \<open>catch\<close> turns a rejected one into a fulfilled one.
  Neither handler can throw. When \<open>execute\<close> itself throws, no promise is made and the
  exception leaves \<open>distributeTask\<close>.
\<close>

definition then_result :: "string \<Rightarrow> promise \<Rightarrow> settled" where
  "then_result aid p =
     (case p of
        PFulfilled r \<Rightarrow> Fulfilled \<lparr>agentId = aid, success = True, result = r, error = Undefined\<rparr>
      | PRejected e \<Rightarrow> Rejected e)"

definition catch_error :: "string \<Rightarrow> settled \<Rightarrow> settled" where
  "catch_error aid s =
     (case s of
        Fulfilled v \<Rightarrow> Fulfilled v
      | Rejected e \<Rightarrow> Fulfilled \<lparr>agentId = aid, success = False, result = Undefined, error = e\<rparr>)"

fun dispatch :: "coordinator \<Rightarrow> (string \<times> jsval) list \<Rightarrow> js_error + settled list" where
  "dispatch c [] = Inr []"
| "dispatch c ((aid, subtask) # rest) =
     (case Map_get (agents c) aid of
        None \<Rightarrow> dispatch c rest
      | Some agent \<Rightarrow>
          (case agent_instance agent subtask of
             Throws e \<Rightarrow> Inl (Thrown e)
           | Returns p \<Rightarrow>
               (case dispatch c rest of
                  Inl e \<Rightarrow> Inl e
                | Inr ps \<Rightarrow> Inr (catch_error aid (then_result aid p) # ps))))"

text \<open>
  \<open>distributeTask\<close>; \<open>taskKey\<close> stands for the random key and \<open>now\<close> for the clock. The
  settled results are what \<open>aggregateResults\<close> receives; the task is entered in
  \<open>this.tasks\<close> before they are aggregated. The result is the coordinator after the call
  and what the call returns or throws.
\<close>

definition settled_results :: "coordinator \<Rightarrow> jsval list \<Rightarrow> js_error + settled list" where
  "settled_results c subtasks = dispatch c (allocateSubtasks c subtasks)"

definition distributeTask ::
  "coordinator \<Rightarrow> string \<Rightarrow> nat \<Rightarrow> string \<Rightarrow> jsval list \<Rightarrow> coordinator \<times> (js_error + summary)"
where
  "distributeTask c taskKey now taskId subtasks =
     (case settled_results c subtasks of
        Inl e \<Rightarrow> (c, Inl e)
      | Inr results \<Rightarrow>
          (c\<lparr>tasks := Map_set (tasks c) taskKey
                \<lparr>te_taskId = taskId, te_results = results, te_timestamp = now\<rparr>\<rparr>,
           aggregateResults results))"

text \<open>
  Vocabulary for the statements about settled results: \<open>r.status === 'fulfilled'\<close>;
  whether \<open>r.value.error || r.reason\<close> goes on to read \<open>r.reason\<close>, which it does when the
  left operand is falsy; and the value of that expression on an entry for which it does
  not throw.
\<close>

fun is_fulfilled :: "settled \<Rightarrow> bool" where
  "is_fulfilled (Fulfilled v) = True"
| "is_fulfilled (Rejected e) = False"

fun reads_reason :: "settled \<Rightarrow> bool" where
  "reads_reason (Fulfilled v) = (\<not> truthy (error v))"
| "reads_reason (Rejected e) = True"

fun errors_entry :: "settled \<Rightarrow> jsval" where
  "errors_entry (Fulfilled v) = (if truthy (error v) then error v else Undefined)"
| "errors_entry (Rejected e) = e"

section \<open>The replay learning system\<close>

text \<open>
  An action is an object with a string \<open>type\<close> and further fields that the program never
  reads. A session is the object \<open>recordSession\<close> builds, a table entry the object
  \<open>extractPatterns\<close> creates.
\<close>

record action =
  atype :: string
  other_fields :: "(string \<times> json) list"

record session =
  sessionId :: string
  gameType :: string
  timestamp :: string
  actions :: "action list"
  session_successRate :: real
  session_patterns :: "string list"

record pattern_data =
  count :: nat
  successTotal :: real

record replay_config =
  maxReplays :: nat
  learningRate :: real
  batchSize :: nat

record replay_system =
  config :: replay_config
  replays :: "session list"
  patterns :: "(string, pattern_data) jsmap"

definition default_config :: replay_config where
  "default_config = \<lparr>maxReplays = 1000, learningRate = 1 / 100, batchSize = 32\<rparr>"

definition new_ReplaySystem :: "replay_config \<Rightarrow> replay_system" where
  "new_ReplaySystem cfg = \<lparr>config = cfg, replays = [], patterns = []\<rparr>"

text \<open>\<open>[a, b, c].join('-')\<close> on three strings.\<close>

definition join3 :: "string \<Rightarrow> string \<Rightarrow> string \<Rightarrow> string" where
  "join3 a b c = a @ ''-'' @ b @ ''-'' @ c"

text \<open>
  One turn of the loop body after \<open>patterns.push(triple)\<close>: create the entry when the key
  is new, then \<open>patternData.count++\<close> on the entry of the table.
\<close>

definition touch_pattern :: "(string, pattern_data) jsmap \<Rightarrow> string \<Rightarrow> (string, pattern_data) jsmap" where
  "touch_pattern tbl triple =
     (let tbl1 = (if \<not> Map_has tbl triple
                  then Map_set tbl triple \<lparr>count = 0, successTotal = 0\<rparr> else tbl)
      in case Map_get tbl1 triple of
           None \<Rightarrow> tbl1
         | Some patternData \<Rightarrow> Map_set tbl1 triple (patternData\<lparr>count := count patternData + 1\<rparr>))"

text \<open>
  The loop \<open>for (let i = 0; i < actions.length - 2; i++)\<close>; the bound is computed on
  integers, so that a sequence shorter than two actions gives a negative bound.
\<close>

function extract_loop ::
  "action list \<Rightarrow> nat \<Rightarrow> string list \<times> (string, pattern_data) jsmap
     \<Rightarrow> string list \<times> (string, pattern_data) jsmap"
where
  "extract_loop acts i (pats, tbl) =
     (if int i < int (length acts) - 2
      then (let triple = join3 (atype (acts ! i)) (atype (acts ! (i + 1))) (atype (acts ! (i + 2)))
            in extract_loop acts (i + 1) (pats @ [triple], touch_pattern tbl triple))
      else (pats, tbl))"
  by pat_completeness auto
termination
  by (relation "measure (\<lambda>(acts, i, _). length acts - i)") auto

declare extract_loop.simps [simp del]

definition extractPatterns :: "replay_system \<Rightarrow> action list \<Rightarrow> string list \<times> replay_system" where
  "extractPatterns rs acts =
     (let (pats, tbl) = extract_loop acts 0 ([], patterns rs)
      in (pats, rs\<lparr>patterns := tbl\<rparr>))"

text \<open>
  \<open>recordSession\<close>; \<open>sid\<close> stands for the random id and \<open>ts\<close> for the clock's ISO string.
  \<open>shift\<close> removes the first element.
\<close>

definition recordSession ::
  "replay_system \<Rightarrow> string \<Rightarrow> string \<Rightarrow> string \<Rightarrow> action list \<Rightarrow> real \<Rightarrow> replay_system \<times> string"
where
  "recordSession rs sid ts gtype acts rate =
     (let (pats, rs1) = extractPatterns rs acts;
          session = \<lparr>sessionId = sid, gameType = gtype, timestamp = ts, actions = acts,
                     session_successRate = rate, session_patterns = pats\<rparr>;
          pushed = replays rs1 @ [session];
          kept = (if length pushed > maxReplays (config rs1) then tl pushed else pushed)
      in (rs1\<lparr>replays := kept\<rparr>, sid))"

text \<open>
  \<open>learnFromSuccessfulReplays\<close>: the inner loop over the patterns of one replay, the outer
  loop over the replays that passed the filter. \<open>data.successTotal += ...\<close> changes the
  entry where it stands in the table.
\<close>

fun learn_patterns ::
  "real \<Rightarrow> string list \<Rightarrow> (string, pattern_data) jsmap \<times> nat \<Rightarrow> (string, pattern_data) jsmap \<times> nat"
where
  "learn_patterns rate [] (tbl, n) = (tbl, n)"
| "learn_patterns rate (p # rest) (tbl, n) =
     (if Map_has tbl p
      then (case Map_get tbl p of
              None \<Rightarrow> learn_patterns rate rest (tbl, n)
            | Some d \<Rightarrow>
                learn_patterns rate rest
                  (Map_set tbl p (d\<lparr>successTotal := successTotal d + rate\<rparr>), n + 1))
      else learn_patterns rate rest (tbl, n))"

fun learn_replays ::
  "session list \<Rightarrow> (string, pattern_data) jsmap \<times> nat \<Rightarrow> (string, pattern_data) jsmap \<times> nat"
where
  "learn_replays [] acc = acc"
| "learn_replays (replay # rest) acc =
     learn_replays rest (learn_patterns (session_successRate replay) (session_patterns replay) acc)"

record learning_stats =
  successfulReplays :: nat
  patternsLearned :: nat
  totalPatterns :: nat

definition learnFromSuccessfulReplays :: "replay_system \<Rightarrow> real \<Rightarrow> replay_system \<times> learning_stats" where
  "learnFromSuccessfulReplays rs threshold =
     (let successful = filter (\<lambda>r. session_successRate r \<ge> threshold) (replays rs);
          (tbl, totalPatternsLearned) = learn_replays successful (patterns rs, 0)
      in (rs\<lparr>patterns := tbl\<rparr>,
          \<lparr>successfulReplays = length successful,
           patternsLearned = totalPatternsLearned,
           totalPatterns = Map_size tbl\<rparr>))"

text \<open>
  \<open>getRecommendedPatterns\<close>. \<open>topK\<close> is a number of patterns, a natural number, so that
  \<open>slice(0, topK)\<close> takes the first \<open>topK\<close> elements. \<open>currentContext\<close> is a parameter as
  in the source.
\<close>

record pattern_score =
  pattern :: string
  score_successRate :: jsnum
  frequency :: nat

definition score_of :: "string \<times> pattern_data \<Rightarrow> pattern_score" where
  "score_of e =
     \<lparr>pattern = fst e,
      score_successRate =
        (if count (snd e) > 0 then js_div (successTotal (snd e)) (real (count (snd e))) else Num 0),
      frequency = count (snd e)\<rparr>"

text \<open>The comparator \<open>(a, b) => b.successRate - a.successRate\<close>.\<close>

definition by_score :: "pattern_score \<Rightarrow> pattern_score \<Rightarrow> jsnum" where
  "by_score a b = js_sub (score_successRate b) (score_successRate a)"

definition getRecommendedPatterns :: "replay_system \<Rightarrow> jsval \<Rightarrow> nat \<Rightarrow> pattern_score list" where
  "getRecommendedPatterns rs currentContext topK =
     take topK (js_sort by_score (map score_of (patterns rs)))"

text \<open>
  Vocabulary for the statements about recording: the signature that starts at position
  \<open>i\<close>, the signatures of a sequence, the arguments of one \<open>recordSession\<close> call, the
  session that call creates, and a sequence of calls. \<open>rate_of\<close> is the derived success
  rate of a table entry as a real number.
\<close>

definition signature_at :: "action list \<Rightarrow> nat \<Rightarrow> string" where
  "signature_at acts i =
     atype (acts ! i) @ ''-'' @ atype (acts ! (i + 1)) @ ''-'' @ atype (acts ! (i + 2))"

definition signatures :: "action list \<Rightarrow> string list" where
  "signatures acts = map (signature_at acts) [0..<length acts - 2]"

record recording =
  rec_id :: string
  rec_time :: string
  rec_gameType :: string
  rec_actions :: "action list"
  rec_successRate :: real

definition session_of :: "recording \<Rightarrow> session" where
  "session_of c =
     \<lparr>sessionId = rec_id c, gameType = rec_gameType c, timestamp = rec_time c,
      actions = rec_actions c, session_successRate = rec_successRate c,
      session_patterns = signatures (rec_actions c)\<rparr>"

definition record_call :: "replay_system \<Rightarrow> recording \<Rightarrow> replay_system" where
  "record_call rs c =
     fst (recordSession rs (rec_id c) (rec_time c) (rec_gameType c) (rec_actions c) (rec_successRate c))"

fun record_all :: "replay_system \<Rightarrow> recording list \<Rightarrow> replay_system" where
  "record_all rs [] = rs"
| "record_all rs (c # cs) = record_all (record_call rs c) cs"

definition rate_of :: "string \<times> pattern_data \<Rightarrow> real" where
  "rate_of e = (if 0 < count (snd e) then successTotal (snd e) / real (count (snd e)) else 0)"

section \<open>Persistence\<close>

text \<open>
  \<open>loadReplays\<close> stores whatever the file holds, so the two fields it assigns are modelled
  as the JavaScript values they are: \<open>this.replays\<close> is plain data, \<open>this.patterns\<close> a
  \<open>Map\<close> whose keys and values are plain data or \<open>undefined\<close>.
\<close>

record store_values =
  this_replays :: json
  this_patterns :: "(jsval, jsval) jsmap"

text \<open>How the objects of a replay system lie in those two fields.\<close>

definition json_of_action :: "action \<Rightarrow> json" where
  "json_of_action a = JObj ((''type'', JStr (atype a)) # other_fields a)"

definition json_of_session :: "session \<Rightarrow> json" where
  "json_of_session s =
     JObj [(''id'', JStr (sessionId s)),
           (''gameType'', JStr (gameType s)),
           (''timestamp'', JStr (timestamp s)),
           (''actions'', JArr (map json_of_action (actions s))),
           (''successRate'', JNum (session_successRate s)),
           (''patterns'', JArr (map JStr (session_patterns s)))]"

definition json_of_pattern_data :: "pattern_data \<Rightarrow> json" where
  "json_of_pattern_data d =
     JObj [(''count'', JNum (real (count d))), (''successTotal'', JNum (successTotal d))]"

definition values_of :: "replay_system \<Rightarrow> store_values" where
  "values_of rs =
     \<lparr>this_replays = JArr (map json_of_session (replays rs)),
      this_patterns = map (\<lambda>(k, d). (Val (JStr k), Val (json_of_pattern_data d))) (patterns rs)\<rparr>"

text \<open>
  What \<open>JSON.parse(await fs.readFile(filename, 'utf-8'))\<close> gives: the read fails, the text
  is no JSON, or the text parses to a document (\<open>data\<close> in the source).
\<close>

datatype file_content = Unreadable | NotJSON | Document json

text \<open>
  \<open>data.name\<close> for a name that is neither an index nor a built-in property, as
  \<open>replays\<close> and \<open>patterns\<close> are: a TypeError on \<open>null\<close>, \<open>undefined\<close> where the value
  has no such property.
\<close>

fun get_prop :: "json \<Rightarrow> string \<Rightarrow> js_error + jsval" where
  "get_prop JNull name = Inl TypeError"
| "get_prop (JObj fs) name = Inr (case map_of fs name of None \<Rightarrow> Undefined | Some v \<Rightarrow> Val v)"
| "get_prop (JBool b) name = Inr Undefined"
| "get_prop (JNum r) name = Inr Undefined"
| "get_prop (JStr s) name = Inr Undefined"
| "get_prop (JArr xs) name = Inr Undefined"

text \<open>\<open>v || []\<close>.\<close>

definition or_empty_array :: "jsval \<Rightarrow> json" where
  "or_empty_array v =
     (case v of Undefined \<Rightarrow> JArr [] | Val j \<Rightarrow> if truthy_json j then j else JArr [])"

text \<open>
  \<open>new Map(iterable)\<close>. Every element of the iterable must be an object (an array counts);
  its properties \<open>0\<close> and \<open>1\<close> are the key and the value. Keys are compared as
  \<open>Map\<close> does: plain values by value, an array or an object by identity, and a freshly
  parsed array or object is identical to no other key. A string iterates over its
  characters, which are no objects; numbers, booleans and objects that are no arrays are
  not iterable.
\<close>

definition index_name :: "nat \<Rightarrow> string" where
  "index_name i = (if i = 0 then ''0'' else ''1'')"

fun entry_at :: "json \<Rightarrow> nat \<Rightarrow> js_error + jsval" where
  "entry_at (JArr xs) i = Inr (if i < length xs then Val (xs ! i) else Undefined)"
| "entry_at (JObj fs) i =
     Inr (case map_of fs (index_name i) of None \<Rightarrow> Undefined | Some v \<Rightarrow> Val v)"
| "entry_at JNull i = Inl TypeError"
| "entry_at (JBool b) i = Inl TypeError"
| "entry_at (JNum r) i = Inl TypeError"
| "entry_at (JStr s) i = Inl TypeError"

fun is_reference :: "jsval \<Rightarrow> bool" where
  "is_reference (Val (JArr xs)) = True"
| "is_reference (Val (JObj fs)) = True"
| "is_reference _ = False"

definition Map_set_value :: "(jsval, jsval) jsmap \<Rightarrow> jsval \<Rightarrow> jsval \<Rightarrow> (jsval, jsval) jsmap" where
  "Map_set_value m k v = (if is_reference k then m @ [(k, v)] else Map_set m k v)"

fun Map_from_entries :: "json list \<Rightarrow> (jsval, jsval) jsmap \<Rightarrow> js_error + (jsval, jsval) jsmap" where
  "Map_from_entries [] m = Inr m"
| "Map_from_entries (e # es) m =
     (case entry_at e 0 of
        Inl err \<Rightarrow> Inl err
      | Inr k \<Rightarrow>
          (case entry_at e 1 of
             Inl err \<Rightarrow> Inl err
           | Inr v \<Rightarrow> Map_from_entries es (Map_set_value m k v)))"

fun new_Map :: "json \<Rightarrow> js_error + (jsval, jsval) jsmap" where
  "new_Map (JArr es) = Map_from_entries es []"
| "new_Map JNull = Inr []"
| "new_Map (JStr s) = (if s = [] then Inr [] else Inl TypeError)"
| "new_Map (JBool b) = Inl TypeError"
| "new_Map (JNum r) = Inl TypeError"
| "new_Map (JObj fs) = Inl TypeError"

text \<open>
  \<open>loadReplays\<close>: the two assignments in the order of the source, inside one \<open>try\<close>. The
  result is the store after the call and the boolean returned.
\<close>

definition loadReplays :: "store_values \<Rightarrow> file_content \<Rightarrow> store_values \<times> bool" where
  "loadReplays st file =
     (case file of
        Unreadable \<Rightarrow> (st, False)
      | NotJSON \<Rightarrow> (st, False)
      | Document doc \<Rightarrow>
          (case get_prop doc ''replays'' of
             Inl e \<Rightarrow> (st, False)
           | Inr r \<Rightarrow>
               (let st1 = st\<lparr>this_replays := or_empty_array r\<rparr>
                in case get_prop doc ''patterns'' of
                     Inl e \<Rightarrow> (st1, False)
                   | Inr p \<Rightarrow>
                       (case new_Map (or_empty_array p) of
                          Inl e \<Rightarrow> (st1, False)
                        | Inr m \<Rightarrow> (st1\<lparr>this_patterns := m\<rparr>, True)))))"

text \<open>
  \<open>saveReplays\<close> builds the object \<open>data\<close> and writes \<open>JSON.stringify(data)\<close>, in which an
  \<open>undefined\<close> element of an array is written \<open>null\<close>. A write that fails is logged and
  nothing is written; \<open>written\<close> says whether \<open>fs.writeFile\<close> succeeded. \<open>ts\<close> stands for
  the clock's ISO string; the name of the file, made from the clock too, is not modelled.
  \<open>JSON.stringify\<close> followed by \<open>JSON.parse\<close> gives plain data back as it was, so the file
  is modelled by the document it holds.
\<close>

fun array_element :: "jsval \<Rightarrow> json" where
  "array_element Undefined = JNull"
| "array_element (Val j) = j"

definition snapshot :: "string \<Rightarrow> store_values \<Rightarrow> json" where
  "snapshot ts st =
     JObj [(''timestamp'', JStr ts),
           (''replays'', this_replays st),
           (''patterns'',
              JArr (map (\<lambda>(k, v). JArr [array_element k, array_element v]) (this_patterns st)))]"

definition saveReplays :: "store_values \<Rightarrow> string \<Rightarrow> bool \<Rightarrow> file_content option" where
  "saveReplays st ts written = (if written then Some (Document (snapshot ts st)) else None)"

text \<open>
  Vocabulary for the round trip: the array \<open>[key, value]\<close> that \<open>saveReplays\<close> writes for a
  table entry, and the \<open>Map\<close> entry it stands for.
\<close>

definition entry_of :: "string \<times> pattern_data \<Rightarrow> json" where
  "entry_of e = JArr [JStr (fst e), json_of_pattern_data (snd e)]"

definition value_of :: "string \<times> pattern_data \<Rightarrow> jsval \<times> jsval" where
  "value_of e = (Val (JStr (fst e)), Val (json_of_pattern_data (snd e)))"

section \<open>Concrete inputs\<close>

text \<open>
  Two ready agents \<open>A\<close> (success rate 0.9) and \<open>B\<close> (0.5), registered in that order, and
  the three subtasks of the coordinator test of the usage guide.
\<close>

definition idle_agent :: "jsval \<Rightarrow> exec_outcome" where
  "idle_agent subtask = Returns (PFulfilled Undefined)"

definition agents_AB :: coordinator where
  "agents_AB =
     \<lparr>agents =
        [(''A'', \<lparr>agent_instance = idle_agent, status = ''ready'', tasksCompleted = 0,
                  successRate = 9 / 10\<rparr>),
         (''B'', \<lparr>agent_instance = idle_agent, status = ''ready'', tasksCompleted = 0,
                  successRate = 5 / 10\<rparr>)],
      tasks = []\<rparr>"

definition scout :: jsval where
  "scout = Val (JObj [(''type'', JStr ''scout''), (''target'', JStr ''area-1'')])"

definition collect :: jsval where
  "collect = Val (JObj [(''type'', JStr ''collect''), (''target'', JStr ''resources-1'')])"

definition return_to_base :: jsval where
  "return_to_base = Val (JObj [(''type'', JStr ''return''), (''target'', JStr ''base'')])"

definition three_subtasks :: "jsval list" where
  "three_subtasks = [scout, collect, return_to_base]"

text \<open>A coordinator without agents, and one whose only agent rejects with \<open>null\<close>.\<close>

definition no_agents :: coordinator where
  "no_agents = \<lparr>agents = [], tasks = []\<rparr>"

definition rejecting_agent :: "jsval \<Rightarrow> exec_outcome" where
  "rejecting_agent subtask = Returns (PRejected (Val JNull))"

definition one_agent :: coordinator where
  "one_agent = registerAgent no_agents ''A'' rejecting_agent"

definition rejected_with_null :: settled where
  "rejected_with_null =
     Fulfilled \<lparr>agentId = ''A'', success = False, result = Undefined, error = Val JNull\<rparr>"

text \<open>The session of the usage guide's replay test, recorded into a new system.\<close>

definition sample_actions :: "action list" where
  "sample_actions =
     [\<lparr>atype = ''mouse_move'', other_fields = [(''x'', JNum 100), (''y'', JNum 200)]\<rparr>,
      \<lparr>atype = ''mouse_click'', other_fields = [(''button'', JStr ''left'')]\<rparr>,
      \<lparr>atype = ''keyboard'', other_fields = [(''key'', JStr ''w'')]\<rparr>]"

definition recorded_store :: replay_system where
  "recorded_store =
     fst (recordSession (new_ReplaySystem default_config) ''s1'' ''t1'' ''Roblox'' sample_actions
            (85 / 100))"

text \<open>A file whose \<open>patterns\<close> is a number: \<open>{"replays": [], "patterns": 5}\<close>.\<close>

definition bad_patterns_file :: file_content where
  "bad_patterns_file = Document (JObj [(''replays'', JArr []), (''patterns'', JNum 5)])"

text \<open>
  Three calls; a system of the default capacity that recorded them and is saved; and a
  system of capacity 1 that holds the three sessions, as it does after loading that
  snapshot.
\<close>

definition small_config :: replay_config where
  "small_config = \<lparr>maxReplays = 1, learningRate = 1 / 100, batchSize = 32\<rparr>"

definition call1 :: recording where
  "call1 = \<lparr>rec_id = ''s1'', rec_time = ''t1'', rec_gameType = ''Roblox'', rec_actions = [],
            rec_successRate = 9 / 10\<rparr>"

definition call2 :: recording where
  "call2 = \<lparr>rec_id = ''s2'', rec_time = ''t2'', rec_gameType = ''Roblox'', rec_actions = [],
            rec_successRate = 4 / 10\<rparr>"

definition call3 :: recording where
  "call3 = \<lparr>rec_id = ''s3'', rec_time = ''t3'', rec_gameType = ''Roblox'', rec_actions = [],
            rec_successRate = 7 / 10\<rparr>"

definition saved_store :: replay_system where
  "saved_store = record_all (new_ReplaySystem default_config) [call1, call2, call3]"

definition loaded_store :: replay_system where
  "loaded_store =
     \<lparr>config = small_config, replays = map session_of [call1, call2, call3], patterns = []\<rparr>"

text \<open>
  The learning scenario: a session with the actions \<open>m, c, k\<close> and success rate 0.9, and
  one with \<open>m, c, k, m\<close> and success rate 0.4.
\<close>

definition act :: "string \<Rightarrow> action" where
  "act t = \<lparr>atype = t, other_fields = []\<rparr>"

definition scenario_store :: replay_system where
  "scenario_store =
     record_all (new_ReplaySystem default_config)
       [\<lparr>rec_id = ''s1'', rec_time = ''t1'', rec_gameType = ''Roblox'',
         rec_actions = [act ''m'', act ''c'', act ''k''], rec_successRate = 9 / 10\<rparr>,
        \<lparr>rec_id = ''s2'', rec_time = ''t2'', rec_gameType = ''Roblox'',
         rec_actions = [act ''m'', act ''c'', act ''k'', act ''m''], rec_successRate = 4 / 10\<rparr>]"

text \<open>A pattern table with an entry that was never counted.\<close>

definition scored_store :: replay_system where
  "scored_store =
     \<lparr>config = default_config, replays = [],
      patterns = [(''a-b-c'', \<lparr>count = 2, successTotal = 1\<rparr>),
                  (''b-c-d'', \<lparr>count = 0, successTotal = 0\<rparr>),
                  (''c-d-e'', \<lparr>count = 1, successTotal = 9 / 10\<rparr>)]\<rparr>"

section \<open>Properties of the library model\<close>

lemma Map_get_Map_set: "Map_get (Map_set m k v) k' = (if k' = k then Some v else Map_get m k')"
  by (induction m k v rule: Map_set.induct) (auto simp: Map_get_def)

lemma keys_Map_set:
  "map fst (Map_set m k v) = (if k \<in> fst ` set m then map fst m else map fst m @ [k])"
  by (induction m k v rule: Map_set.induct) auto

lemma Map_set_new: "k \<notin> fst ` set m \<Longrightarrow> Map_set m k v = m @ [(k, v)]"
  by (induction m k v rule: Map_set.induct) auto

lemma distinct_Map_set: "distinct (map fst m) \<Longrightarrow> distinct (map fst (Map_set m k v))"
  by (auto simp: keys_Map_set)

lemma Map_has_iff: "Map_has m k \<longleftrightarrow> Map_get m k \<noteq> None"
  by (simp add: Map_has_def Map_get_def map_of_eq_None_iff)

lemma set_js_insert: "set (js_insert cmp x ys) = insert x (set ys)"
  by (induction ys) auto

lemma set_js_sort: "set (js_sort cmp xs) = set xs"
  by (induction xs) (auto simp: set_js_insert)

text \<open>
  On a list whose elements the comparator orders by a real key, largest first, the model
  of \<open>sort\<close> is the stable sort by the negated key.
\<close>

lemma js_insert_insort_key:
  fixes key :: "'a \<Rightarrow> real"
  assumes "\<And>b. b \<in> set ys \<Longrightarrow> js_pos (cmp x b) \<longleftrightarrow> key x < key b"
  shows "js_insert cmp x ys = insort_key (\<lambda>e. - key e) x ys"
  using assms by (induction ys) (auto simp: not_less)

lemma js_sort_sort_key:
  fixes key :: "'a \<Rightarrow> real"
  assumes "\<And>a b. a \<in> set xs \<Longrightarrow> b \<in> set xs \<Longrightarrow> js_pos (cmp a b) \<longleftrightarrow> key a < key b"
  shows "js_sort cmp xs = sort_key (\<lambda>e. - key e) xs"
  using assms
proof (induction xs)
  case Nil
  then show ?case by simp
next
  case (Cons x xs)
  have "js_sort cmp xs = sort_key (\<lambda>e. - key e) xs"
    using Cons by simp
  moreover have "js_insert cmp x (js_sort cmp xs) = insort_key (\<lambda>e. - key e) x (js_sort cmp xs)"
    by (rule js_insert_insort_key) (simp add: set_js_sort Cons.prems)
  ultimately show ?case by simp
qed

section \<open>The coordinator: allocation\<close>

text \<open>
  The ranking of the ready agents is the stable sort by descending success rate: agents
  with equal rates keep their registration order.
\<close>

lemma readyAgents_ranking:
  "readyAgents c =
     sort_key (\<lambda>e. - successRate (snd e)) (filter (\<lambda>(_, d). status d = ''ready'') (agents c))"
  unfolding readyAgents_def
  by (rule js_sort_sort_key) (simp add: by_successRate_def)

lemma sorted_readyAgents:
  "sorted_wrt (\<lambda>a b. successRate (snd b) \<le> successRate (snd a)) (readyAgents c)"
proof -
  have "sorted (map (\<lambda>e. - successRate (snd e)) (readyAgents c))"
    unfolding readyAgents_ranking by (rule sorted_sort_key)
  then show ?thesis by (simp add: sorted_map)
qed

text \<open>
  The allocation is a \<open>Map\<close> keyed by the agent: it never holds more entries than there
  are ready agents, however many subtasks are given.
\<close>

lemma allocate_loop_keys:
  assumes "distinct (map fst al)" and "fst ` set al \<subseteq> fst ` set ready"
  shows "distinct (map fst (allocate_loop ready subtasks i al))
         \<and> fst ` set (allocate_loop ready subtasks i al) \<subseteq> fst ` set ready"
  using assms
proof (induction ready subtasks i al rule: allocate_loop.induct)
  case (1 ready agentIndex allocations)
  then show ?case by simp
next
  case (2 ready subtask rest agentIndex allocations)
  show ?case
  proof (cases "length ready = 0")
    case True
    with 2 show ?thesis by simp
  next
    case False
    let ?k = "fst (ready ! (agentIndex mod length ready))"
    have k: "?k \<in> fst ` set ready"
      using False by (simp add: nth_mem)
    have d: "distinct (map fst (Map_set allocations ?k subtask))"
      using "2.prems"(1) by (rule distinct_Map_set)
    have "set (map fst (Map_set allocations ?k subtask)) \<subseteq> fst ` set ready"
      using "2.prems"(2) k by (auto simp: keys_Map_set)
    then have s: "fst ` set (Map_set allocations ?k subtask) \<subseteq> fst ` set ready"
      by simp
    show ?thesis
      using "2.IH" [OF False d s] False by simp
  qed
qed

lemma allocateSubtasks_bound: "length (allocateSubtasks c subtasks) \<le> length (readyAgents c)"
proof -
  let ?al = "allocateSubtasks c subtasks"
  have k: "distinct (map fst ?al) \<and> fst ` set ?al \<subseteq> fst ` set (readyAgents c)"
    unfolding allocateSubtasks_def by (rule allocate_loop_keys) simp_all
  then have "length ?al = card (fst ` set ?al)"
    by (metis distinct_card length_map list.set_map)
  also have "\<dots> \<le> card (fst ` set (readyAgents c))"
    using k by (simp add: card_mono)
  also have "\<dots> \<le> length (readyAgents c)"
    by (metis card_length length_map list.set_map)
  finally show ?thesis .
qed

text \<open>
  C1. The claim: with \<open>N > 0\<close> ready agents and \<open>M\<close> subtasks, \<open>allocateSubtasks\<close> returns
  \<open>M\<close> assignments in subtask order, subtask \<open>i\<close> going to the agent of rank \<open>i mod N\<close>;
  with \<open>A\<close> (0.9) and \<open>B\<close> (0.5) and three subtasks the order is \<open>[A, B, A]\<close>.
  The code at that input: the loop does visit the agents in the order \<open>A, B, A\<close>, but it
  stores each assignment in a \<open>Map\<close> under the agent's id, so the third subtask replaces
  the first one. Two assignments are returned, and the first subtask is assigned to nobody.
\<close>

theorem allocateSubtasks_overwrites_assignment:
  "allocateSubtasks agents_AB three_subtasks = [(''A'', return_to_base), (''B'', collect)]
   \<and> map fst (allocateSubtasks agents_AB three_subtasks) \<noteq> [''A'', ''B'', ''A'']
   \<and> length (allocateSubtasks agents_AB three_subtasks) \<noteq> length three_subtasks
   \<and> scout \<notin> snd ` set (allocateSubtasks agents_AB three_subtasks)"
  by (simp add: allocateSubtasks_def agents_AB_def three_subtasks_def readyAgents_def
        by_successRate_def scout_def collect_def return_to_base_def)

text \<open>
  The same on the usage guide's own test: two agents registered through \<open>registerAgent\<close>
  and the three subtasks.
\<close>

lemma allocateSubtasks_usage_guide:
  "allocateSubtasks
     (registerAgent (registerAgent no_agents ''agent-1'' idle_agent) ''agent-2'' idle_agent)
     three_subtasks
   = [(''agent-1'', return_to_base), (''agent-2'', collect)]"
  by (simp add: allocateSubtasks_def registerAgent_def no_agents_def three_subtasks_def
        readyAgents_def by_successRate_def)

section \<open>The coordinator: aggregation\<close>

lemma map_errors_fulfilled:
  "list_all is_fulfilled rs \<Longrightarrow> map_errors rs = Inr (map errors_entry rs)"
proof (induction rs)
  case Nil
  then show ?case by simp
next
  case (Cons r rs)
  then show ?case by (cases r) (simp_all add: js_or_def)
qed

text \<open>
  On a non-empty sequence of fulfilled outcomes the rate is the quotient of the two
  counts, and every outcome is counted once.
\<close>

lemma aggregateResults_rate:
  assumes "list_all is_fulfilled rs" and "rs \<noteq> []"
  shows "\<exists>s. aggregateResults rs = Inr s
            \<and> summary_successRate s = Num (real (successful s) / real (totalTasks s))
            \<and> totalTasks s = length rs
            \<and> successful s + failed s = totalTasks s"
proof -
  have "list_all is_fulfilled (filter is_failed rs)"
    using assms(1) by (simp add: list_all_iff)
  then have e: "map_errors (filter is_failed rs) = Inr (map errors_entry (filter is_failed rs))"
    by (rule map_errors_fulfilled)
  have "is_failed r \<longleftrightarrow> \<not> is_successful r" if "is_fulfilled r" for r
    using that by (cases r) simp_all
  then have "filter is_failed rs = filter (\<lambda>r. \<not> is_successful r) rs"
    using assms(1) by (intro filter_cong) (auto simp: list_all_iff)
  then have "length (filter is_successful rs) + length (filter is_failed rs) = length rs"
    by (simp add: sum_length_filter_compl)
  then show ?thesis
    using assms(2) by (simp add: aggregateResults_def Let_def e js_div_def)
qed

text \<open>
  A rejected entry makes the aggregation throw at \<open>r.value.error\<close>; \<open>distributeTask\<close> never
  passes one (see \<open>dispatch_all_fulfilled\<close> below).
\<close>

lemma aggregateResults_rejected_throws: "aggregateResults [Rejected e] = Inl TypeError"
  by (simp add: aggregateResults_def)

text \<open>
  C2. The claim: the summary's \<open>successRate\<close> is \<open>successful / total\<close> when there are
  outcomes, and \<open>0\<close>, never \<open>NaN\<close>, when there are none.
  The code at the empty sequence: \<open>successful.length / results.length\<close> is \<open>0 / 0\<close>, there
  is no guard, and the summary carries \<open>NaN\<close>. \<open>distributeTask\<close> gets there as soon as no
  agent is registered, whatever the subtasks.
\<close>

theorem aggregateResults_empty_is_NaN:
  "aggregateResults [] =
     Inr \<lparr>totalTasks = 0, successful = 0, failed = 0, summary_successRate = NaN,
          data = [], errors = []\<rparr>
   \<and> map_sum id summary_successRate
        (snd (distributeTask no_agents ''key'' 0 ''complex-task'' three_subtasks)) = Inr NaN"
  by (simp add: aggregateResults_def js_div_def distributeTask_def settled_results_def
        allocateSubtasks_def readyAgents_def no_agents_def three_subtasks_def)

section \<open>The coordinator: settled results\<close>

lemma dispatch_all_fulfilled: "dispatch c asg = Inr rs \<Longrightarrow> list_all is_fulfilled rs"
  by (induction c asg arbitrary: rs rule: dispatch.induct)
     (auto split: option.splits exec_outcome.splits sum.splits promise.splits settled.splits
           simp: catch_error_def then_result_def)

lemma one_agent_results:
  "settled_results one_agent [scout] = Inr [rejected_with_null]"
  by (simp add: settled_results_def allocateSubtasks_def readyAgents_def one_agent_def
        registerAgent_def no_agents_def Map_get_def rejecting_agent_def then_result_def
        catch_error_def rejected_with_null_def)

text \<open>
  C9. The claim: every promise \<open>distributeTask\<close> dispatches turns a fault into a fulfilled
  failure outcome, so every result \<open>aggregateResults\<close> receives from it has the status
  \<open>fulfilled\<close>, and both the \<open>rejected\<close> branch and the \<open>r.reason\<close> fallback of the errors
  list are unreachable.
  The last part fails: \<open>r.value.error || r.reason\<close> reads \<open>r.reason\<close> whenever the captured
  error is falsy. An agent that rejects with \<open>null\<close> gives a fulfilled failure outcome
  whose error is \<open>null\<close>, and the entry of the errors list is \<open>undefined\<close>.
\<close>

theorem distributeTask_reads_reason_on_falsy_error:
  "settled_results one_agent [scout] = Inr [rejected_with_null]
   \<and> is_failed rejected_with_null
   \<and> reads_reason rejected_with_null
   \<and> map_sum id errors (snd (distributeTask one_agent ''key'' 0 ''task'' [scout]))
       = Inr [Undefined]"
  by (simp add: one_agent_results distributeTask_def aggregateResults_def Let_def js_div_def)
     (simp add: rejected_with_null_def js_or_def)

text \<open>
  C9, amended: whenever \<open>distributeTask\<close> gets as far as \<open>aggregateResults\<close>, every result
  has the status \<open>fulfilled\<close>, so the \<open>rejected\<close> branch is unreachable and the aggregation
  does not throw; the entry of the errors list for a failure outcome is the captured error
  when that is truthy and \<open>undefined\<close>, read from \<open>r.reason\<close>, when it is falsy.
\<close>

theorem distributeTask_results_fulfilled:
  assumes "settled_results c subtasks = Inr rs"
  shows "list_all is_fulfilled rs
         \<and> map_sum id errors (aggregateResults rs) = Inr (map errors_entry (filter is_failed rs))"
proof -
  have f: "list_all is_fulfilled rs"
    using assms unfolding settled_results_def by (rule dispatch_all_fulfilled)
  then have "list_all is_fulfilled (filter is_failed rs)"
    by (simp add: list_all_iff)
  then have "map_errors (filter is_failed rs) = Inr (map errors_entry (filter is_failed rs))"
    by (rule map_errors_fulfilled)
  then show ?thesis using f by (simp add: aggregateResults_def Let_def)
qed

theorem distributeTask_results_fulfilled_witness:
  "settled_results one_agent [scout] = Inr [rejected_with_null]
   \<and> list_all is_fulfilled [rejected_with_null]
   \<and> map_sum id errors (aggregateResults [rejected_with_null]) = Inr [Undefined]"
  using distributeTask_results_fulfilled [OF one_agent_results] one_agent_results
  by (simp add: rejected_with_null_def)

section \<open>The replay system: pattern extraction\<close>

lemma Map_get_touch_pattern:
  "Map_get (touch_pattern tbl p) k =
     (if k = p
      then Some (case Map_get tbl p of
                   None \<Rightarrow> \<lparr>count = 1, successTotal = 0\<rparr>
                 | Some d \<Rightarrow> d\<lparr>count := count d + 1\<rparr>)
      else Map_get tbl k)"
  by (auto simp: touch_pattern_def Map_has_iff Map_get_Map_set Let_def split: option.splits)

text \<open>The loop, started at \<open>i\<close>, emits the signatures from \<open>i\<close> on and touches each in turn.\<close>

lemma extract_loop_eq:
  "extract_loop acts i (pats, tbl) =
     (pats @ map (signature_at acts) [i..<length acts - 2],
      foldl touch_pattern tbl (map (signature_at acts) [i..<length acts - 2]))"
proof (induction acts i "(pats, tbl)" arbitrary: pats tbl rule: extract_loop.induct)
  case (1 acts i pats tbl)
  show ?case
  proof (cases "int i < int (length acts) - 2")
    case True
    then have "i < length acts - 2" by linarith
    then have up: "[i..<length acts - 2] = i # [Suc i..<length acts - 2]"
      by (simp add: upt_conv_Cons)
    show ?thesis
      using True 1 [OF True refl]
      by (subst extract_loop.simps) (simp add: up join3_def signature_at_def Let_def)
  next
    case False
    then have "\<not> i < length acts - 2" by linarith
    with False show ?thesis by (subst extract_loop.simps) simp
  qed
qed

lemma Map_get_foldl_touch_pattern:
  "Map_get (foldl touch_pattern tbl sigs) p =
     (if count_list sigs p = 0 then Map_get tbl p
      else Some (case Map_get tbl p of
                   None \<Rightarrow> \<lparr>count = count_list sigs p, successTotal = 0\<rparr>
                 | Some d \<Rightarrow> d\<lparr>count := count d + count_list sigs p\<rparr>))"
proof (induction sigs arbitrary: tbl)
  case Nil
  then show ?case by simp
next
  case (Cons s sigs)
  show ?case
    by (simp add: Cons.IH Map_get_touch_pattern split: option.splits)
qed

lemma extractPatterns_eq:
  "extractPatterns rs acts =
     (signatures acts, rs\<lparr>patterns := foldl touch_pattern (patterns rs) (signatures acts)\<rparr>)"
  by (simp add: extractPatterns_def extract_loop_eq signatures_def)

text \<open>
  C5. For an action sequence of length \<open>L\<close>, \<open>extractPatterns\<close> returns exactly
  \<open>max (L - 2) 0\<close> signatures, the one at position \<open>i\<close> being the types of the actions
  \<open>i\<close>, \<open>i + 1\<close>, \<open>i + 2\<close> joined by \<open>-\<close>; a sequence shorter than three actions gives
  none. In the table, the count of a signature grows by the number of times it was
  emitted, an absent entry being created with \<open>successTotal = 0\<close>; no other entry and no
  other part of the system changes.
\<close>

theorem extractPatterns_signatures:
  "fst (extractPatterns rs acts) =
     map (\<lambda>i. atype (acts ! i) @ ''-'' @ atype (acts ! (i + 1)) @ ''-'' @ atype (acts ! (i + 2)))
       [0..<length acts - 2]
   \<and> int (length (fst (extractPatterns rs acts))) = max (int (length acts) - 2) 0
   \<and> (length acts < 3 \<longrightarrow> fst (extractPatterns rs acts) = [])
   \<and> Map_get (patterns (snd (extractPatterns rs acts))) p =
       (if count_list (fst (extractPatterns rs acts)) p = 0 then Map_get (patterns rs) p
        else Some (case Map_get (patterns rs) p of
                     None \<Rightarrow>
                       \<lparr>count = count_list (fst (extractPatterns rs acts)) p, successTotal = 0\<rparr>
                   | Some d \<Rightarrow>
                       d\<lparr>count := count d + count_list (fst (extractPatterns rs acts)) p\<rparr>))
   \<and> replays (snd (extractPatterns rs acts)) = replays rs
   \<and> config (snd (extractPatterns rs acts)) = config rs"
proof -
  have s: "signatures acts =
      map (\<lambda>i. atype (acts ! i) @ ''-'' @ atype (acts ! (i + 1)) @ ''-'' @ atype (acts ! (i + 2)))
        [0..<length acts - 2]"
    by (simp add: signatures_def signature_at_def)
  have l: "int (length acts - 2) = max (int (length acts) - 2) 0" by linarith
  have n: "length (signatures acts) = length acts - 2" by (simp add: signatures_def)
  show ?thesis
    unfolding extractPatterns_eq fst_conv snd_conv
    by (simp add: Map_get_foldl_touch_pattern n l split: option.splits) (simp add: s)
qed

lemma recorded_store_eq:
  "recorded_store =
     \<lparr>config = default_config,
      replays = [\<lparr>sessionId = ''s1'', gameType = ''Roblox'', timestamp = ''t1'',
                  actions = sample_actions, session_successRate = 85 / 100,
                  session_patterns = [''mouse_move-mouse_click-keyboard'']\<rparr>],
      patterns = [(''mouse_move-mouse_click-keyboard'', \<lparr>count = 1, successTotal = 0\<rparr>)]\<rparr>"
  by (simp add: recorded_store_def recordSession_def extractPatterns_eq signatures_def
        signature_at_def sample_actions_def new_ReplaySystem_def default_config_def
        touch_pattern_def Map_has_def Map_get_def)

theorem extractPatterns_signatures_witness:
  "length (take 2 sample_actions) < 3
   \<and> fst (extractPatterns recorded_store (take 2 sample_actions)) = []
   \<and> fst (extractPatterns recorded_store sample_actions) = [''mouse_move-mouse_click-keyboard'']
   \<and> Map_get (patterns (snd (extractPatterns recorded_store sample_actions)))
         ''mouse_move-mouse_click-keyboard''
       = Some \<lparr>count = 2, successTotal = 0\<rparr>"
  using extractPatterns_signatures [of recorded_store "take 2 sample_actions" "''x''"]
        extractPatterns_signatures [of recorded_store sample_actions
          "''mouse_move-mouse_click-keyboard''"]
  by (simp add: sample_actions_def recorded_store_eq Map_get_def)

section \<open>The replay system: the bounded store\<close>

lemma replays_recordSession:
  "replays (fst (recordSession rs sid ts g acts rate)) =
     (let pushed = replays rs @
            [\<lparr>sessionId = sid, gameType = g, timestamp = ts, actions = acts,
              session_successRate = rate, session_patterns = signatures acts\<rparr>]
      in if maxReplays (config rs) < length pushed then tl pushed else pushed)"
  by (simp add: recordSession_def extractPatterns_eq Let_def)

lemma config_recordSession: "config (fst (recordSession rs sid ts g acts rate)) = config rs"
  by (simp add: recordSession_def extractPatterns_eq Let_def)

lemma replays_record_call:
  "length (replays rs) \<le> maxReplays (config rs) \<Longrightarrow>
   replays (record_call rs c) =
     drop (length (replays rs) + 1 - maxReplays (config rs)) (replays rs @ [session_of c])"
  by (cases "replays rs")
     (auto simp: record_call_def replays_recordSession session_of_def Let_def Suc_diff_le drop_Cons')

lemma length_record_call:
  "length (replays rs) \<le> maxReplays (config rs) \<Longrightarrow>
   length (replays (record_call rs c)) \<le> maxReplays (config rs)"
  by (simp add: replays_record_call)

lemma config_record_call: "config (record_call rs c) = config rs"
  by (simp add: record_call_def config_recordSession)

lemma drop_snoc_append:
  assumes "d \<le> Suc (length xs)"
  shows "drop d (xs @ [s]) @ ys = drop d (xs @ s # ys)"
proof (cases "d \<le> length xs")
  case True
  then show ?thesis by simp
next
  case False
  with assms have "d = Suc (length xs)" by simp
  then show ?thesis by simp
qed

lemma fifo_step:
  assumes "length xs \<le> M"
  shows "drop (length (drop (length xs + 1 - M) (xs @ [s])) + n - M)
           (drop (length xs + 1 - M) (xs @ [s]) @ ys)
         = drop (length xs + Suc n - M) (xs @ s # ys)"
proof -
  let ?d = "length xs + 1 - M"
  have d: "?d \<le> Suc (length xs)" by simp
  have a: "length (drop ?d (xs @ [s])) + n - M + ?d = length xs + Suc n - M"
    using assms by simp
  show ?thesis
    unfolding drop_snoc_append [OF d] drop_drop a ..
qed

text \<open>
  A store within its capacity, after any sequence of calls, holds the most recent
  \<open>maxReplays\<close> of its old sessions followed by the new ones, in insertion order.
\<close>

lemma replays_record_all:
  "length (replays rs) \<le> maxReplays (config rs) \<Longrightarrow>
   replays (record_all rs cs) =
     drop (length (replays rs) + length cs - maxReplays (config rs))
       (replays rs @ map session_of cs)"
proof (induction cs arbitrary: rs)
  case Nil
  then show ?case by simp
next
  case (Cons c cs)
  let ?M = "maxReplays (config rs)"
  let ?rs = "record_call rs c"
  have len: "length (replays ?rs) \<le> maxReplays (config ?rs)"
    using Cons.prems by (simp add: length_record_call config_record_call)
  have r: "replays ?rs = drop (length (replays rs) + 1 - ?M) (replays rs @ [session_of c])"
    using Cons.prems by (rule replays_record_call)
  have "replays (record_all rs (c # cs)) =
      drop (length (replays ?rs) + length cs - ?M) (replays ?rs @ map session_of cs)"
    using Cons.IH [OF len] by (simp add: config_record_call)
  also have "\<dots> = drop (length (replays rs) + Suc (length cs) - ?M)
      (replays rs @ session_of c # map session_of cs)"
    unfolding r by (rule fifo_step [OF Cons.prems])
  finally show ?case by simp
qed

section \<open>Persistence: loading\<close>

text \<open>A source that cannot be read, or that is no JSON or \<open>null\<close>, leaves the store as it was.\<close>

lemma loadReplays_no_document:
  "loadReplays st Unreadable = (st, False)"
  "loadReplays st NotJSON = (st, False)"
  "loadReplays st (Document JNull) = (st, False)"
  by (simp_all add: loadReplays_def)

text \<open>
  A document that is no snapshot at all, such as the number \<open>5\<close>, has neither property:
  the load succeeds and empties the store.
\<close>

lemma loadReplays_accepts_non_snapshot:
  "loadReplays st (Document (JNum 5)) = (\<lparr>this_replays = JArr [], this_patterns = []\<rparr>, True)"
  by (simp add: loadReplays_def or_empty_array_def)

text \<open>
  C3. The claim: a load whose source is unreadable or holds a malformed snapshot reports
  failure and leaves the replay list and the pattern table as they were.
  The code on the file \<open>{"replays": [], "patterns": 5}\<close>, loaded into the system that
  holds the recorded session: \<open>this.replays\<close> is assigned first, then \<open>new Map(5)\<close> throws;
  the call returns \<open>false\<close>, the pattern table is the old one, and the replay list has
  been replaced by the empty list.
\<close>

theorem loadReplays_partial_overwrite:
  "loadReplays (values_of recorded_store) bad_patterns_file =
     ((values_of recorded_store)\<lparr>this_replays := JArr []\<rparr>, False)
   \<and> this_replays (values_of recorded_store) \<noteq> JArr []"
  by (simp add: recorded_store_eq loadReplays_def bad_patterns_file_def or_empty_array_def
        values_of_def)

section \<open>Persistence: the round trip\<close>

lemma Map_from_entries_encoded:
  assumes "distinct (map fst tbl)"
    and "fst ` set m \<inter> (\<lambda>e. Val (JStr (fst e))) ` set tbl = {}"
  shows "Map_from_entries (map entry_of tbl) m = Inr (m @ map value_of tbl)"
  using assms
proof (induction tbl arbitrary: m)
  case Nil
  then show ?case by simp
next
  case (Cons e tbl)
  have new: "Val (JStr (fst e)) \<notin> fst ` set m"
    using Cons.prems(2) by auto
  have step: "Map_set_value m (Val (JStr (fst e))) (Val (json_of_pattern_data (snd e)))
      = m @ [value_of e]"
    by (simp add: Map_set_value_def Map_set_new [OF new] value_of_def)
  have disj: "fst ` set (m @ [value_of e]) \<inter> (\<lambda>e. Val (JStr (fst e))) ` set tbl = {}"
    using Cons.prems by (auto simp: value_of_def)
  have "Map_from_entries (map entry_of tbl) (m @ [value_of e])
      = Inr ((m @ [value_of e]) @ map value_of tbl)"
    using Cons.prems(1) by (intro Cons.IH disj) simp
  moreover have "entry_at (entry_of e) 0 = Inr (Val (JStr (fst e)))"
    and "entry_at (entry_of e) 1 = Inr (Val (json_of_pattern_data (snd e)))"
    by (simp_all add: entry_of_def)
  ultimately show ?case
    by (simp add: step)
qed

lemma snapshot_values_of:
  "snapshot ts (values_of rs) =
     JObj [(''timestamp'', JStr ts),
           (''replays'', JArr (map json_of_session (replays rs))),
           (''patterns'', JArr (map entry_of (patterns rs)))]"
  by (simp add: snapshot_def values_of_def entry_of_def case_prod_beta comp_def)

lemma load_snapshot:
  assumes "distinct (map fst (patterns rs))"
  shows "loadReplays st (Document (snapshot ts (values_of rs))) = (values_of rs, True)"
proof -
  have m: "Map_from_entries (map entry_of (patterns rs)) [] = Inr (map value_of (patterns rs))"
    using Map_from_entries_encoded [OF assms, of "[]"] by simp
  show ?thesis
    by (simp add: loadReplays_def snapshot_values_of or_empty_array_def m)
       (simp add: values_of_def case_prod_beta value_of_def)
qed

text \<open>
  Two systems that lie in memory as the same values have the same sessions and the same
  pattern table.
\<close>

lemma json_of_action_inj: "json_of_action a = json_of_action b \<Longrightarrow> a = b"
  by (cases a, cases b) (simp add: json_of_action_def)

lemma json_of_session_inj: "json_of_session s = json_of_session s' \<Longrightarrow> s = s'"
proof -
  assume e: "json_of_session s = json_of_session s'"
  have "inj json_of_action" by (rule injI) (rule json_of_action_inj)
  moreover have "inj JStr" by (rule injI) simp
  ultimately show "s = s'"
    using e by (cases s, cases s') (simp add: json_of_session_def inj_map_eq_map)
qed

lemma json_of_pattern_data_inj: "json_of_pattern_data d = json_of_pattern_data d' \<Longrightarrow> d = d'"
  by (cases d, cases d') (simp add: json_of_pattern_data_def)

lemma values_of_inj:
  assumes "values_of rs = values_of rs'"
  shows "replays rs = replays rs' \<and> patterns rs = patterns rs'"
proof -
  have "inj json_of_session" by (rule injI) (rule json_of_session_inj)
  moreover have "inj (\<lambda>(k, d). (Val (JStr k), Val (json_of_pattern_data d)))"
    by (rule injI) (auto dest: json_of_pattern_data_inj)
  ultimately show ?thesis
    using assms by (simp add: values_of_def inj_map_eq_map)
qed

text \<open>
  C8. For every replay system (its pattern table a \<open>Map\<close>, so with one entry per key),
  the snapshot that \<open>saveReplays\<close> writes, loaded by \<open>loadReplays\<close> into any system, is
  accepted and leaves exactly the session list and the pattern table of the saved
  system (by \<open>values_of_inj\<close>, the same sessions and the same pattern table). The
  snapshot's own \<open>timestamp\<close> is not read back, and the configuration is not part of the
  snapshot.
\<close>

theorem save_load_round_trip:
  assumes "distinct (map fst (patterns rs))"
  shows "saveReplays (values_of rs) ts True = Some (Document (snapshot ts (values_of rs)))
         \<and> loadReplays st (Document (snapshot ts (values_of rs))) = (values_of rs, True)"
  using load_snapshot [OF assms] by (simp add: saveReplays_def)

theorem save_load_round_trip_witness:
  "distinct (map fst (patterns recorded_store))
   \<and> saveReplays (values_of recorded_store) ''2026-01-01'' True
       = Some (Document (snapshot ''2026-01-01'' (values_of recorded_store)))
   \<and> loadReplays (values_of (new_ReplaySystem default_config))
        (Document (snapshot ''2026-01-01'' (values_of recorded_store)))
       = (values_of recorded_store, True)"
  using save_load_round_trip
          [of recorded_store "''2026-01-01''" "values_of (new_ReplaySystem default_config)"]
  by (simp add: recorded_store_eq)

section \<open>The replay system: capacity\<close>

lemma saved_store_eq:
  "saved_store =
     \<lparr>config = default_config, replays = map session_of [call1, call2, call3], patterns = []\<rparr>"
  by (simp add: saved_store_def record_call_def recordSession_def extractPatterns_eq
        signatures_def new_ReplaySystem_def default_config_def call1_def call2_def call3_def
        session_of_def)

text \<open>
  C4. The claim: after every \<open>recordSession\<close> call the store holds at most \<open>maxReplays\<close>
  sessions, and after \<open>maxReplays + k\<close> insertions the \<open>k\<close> oldest are gone and the most
  recent \<open>maxReplays\<close> remain in insertion order.
  The first part fails on a store that is over its capacity before the call, since one
  call evicts one session. \<open>loadReplays\<close> makes such a store: a system of capacity 1 that
  loads a snapshot of three sessions holds three, and still three after the next
  \<open>recordSession\<close>.
\<close>

theorem recordSession_over_capacity_after_load:
  "loadReplays (values_of (new_ReplaySystem small_config))
       (Document (snapshot ''t'' (values_of saved_store)))
     = (values_of loaded_store, True)
   \<and> maxReplays (config loaded_store) = 1
   \<and> length (replays (fst (recordSession loaded_store ''s4'' ''t4'' ''Roblox'' [] (1 / 2)))) = 3"
proof -
  have "distinct (map fst (patterns saved_store))" by (simp add: saved_store_eq)
  then have "loadReplays (values_of (new_ReplaySystem small_config))
       (Document (snapshot ''t'' (values_of saved_store)))
     = (values_of saved_store, True)"
    by (rule load_snapshot)
  moreover have "values_of saved_store = values_of loaded_store"
    by (simp add: values_of_def saved_store_eq loaded_store_def)
  moreover have
    "length (replays (fst (recordSession loaded_store ''s4'' ''t4'' ''Roblox'' [] (1 / 2)))) = 3"
    by (simp add: replays_recordSession loaded_store_def small_config_def)
  ultimately show ?thesis by (simp add: loaded_store_def small_config_def)
qed

text \<open>
  C4, amended: a \<open>recordSession\<close> call on a store that holds at most \<open>maxReplays\<close> sessions
  leaves at most \<open>maxReplays\<close> sessions; a system built from the empty store by
  \<open>recordSession\<close> calls alone never exceeds \<open>maxReplays\<close>, and after \<open>maxReplays + k\<close>
  calls exactly the \<open>k\<close> oldest sessions are gone and the most recent \<open>maxReplays\<close> remain
  in insertion order.
\<close>

theorem recordSession_fifo_capacity:
  "(length (replays rs) \<le> maxReplays (config rs) \<longrightarrow>
      length (replays (fst (recordSession rs sid ts g acts rate))) \<le> maxReplays (config rs))
   \<and> length (replays (record_all (new_ReplaySystem cfg) cs)) \<le> maxReplays cfg
   \<and> (length cs = maxReplays cfg + k \<longrightarrow>
        replays (record_all (new_ReplaySystem cfg) cs) = drop k (map session_of cs)
        \<and> length (replays (record_all (new_ReplaySystem cfg) cs)) = maxReplays cfg)"
proof -
  have one: "length (replays (fst (recordSession rs sid ts g acts rate))) \<le> maxReplays (config rs)"
    if "length (replays rs) \<le> maxReplays (config rs)"
    using length_record_call [OF that,
        of "\<lparr>rec_id = sid, rec_time = ts, rec_gameType = g, rec_actions = acts,
             rec_successRate = rate\<rparr>"]
    by (simp add: record_call_def)
  have all: "replays (record_all (new_ReplaySystem cfg) cs) =
      drop (length cs - maxReplays cfg) (map session_of cs)"
    using replays_record_all [of "new_ReplaySystem cfg" cs] by (simp add: new_ReplaySystem_def)
  show ?thesis using one by (auto simp: all)
qed

theorem recordSession_fifo_capacity_witness:
  "length (replays (new_ReplaySystem small_config))
     \<le> maxReplays (config (new_ReplaySystem small_config))
   \<and> length (replays (fst (recordSession (new_ReplaySystem small_config)
         ''s1'' ''t1'' ''Roblox'' [] (9 / 10)))) \<le> 1
   \<and> length [call1, call2, call3] = maxReplays small_config + 2
   \<and> replays (record_all (new_ReplaySystem small_config) [call1, call2, call3])
       = [session_of call3]"
  using recordSession_fifo_capacity
          [of "new_ReplaySystem small_config" "''s1''" "''t1''" "''Roblox''" "[]" "9 / 10"
              small_config "[call1, call2, call3]" 2]
  by (simp add: new_ReplaySystem_def small_config_def)

section \<open>The replay system: learning\<close>

lemma keys_learn_patterns: "map fst (fst (learn_patterns r ps (tbl, n))) = map fst tbl"
  by (induction r ps "(tbl, n)" arbitrary: tbl n rule: learn_patterns.induct)
     (auto simp: keys_Map_set Map_has_def split: option.splits)

lemma Map_has_learn_patterns: "Map_has (fst (learn_patterns r ps (tbl, n))) k = Map_has tbl k"
  using keys_learn_patterns [of r ps tbl n] by (metis Map_has_def list.set_map)

lemma Map_get_learn_patterns:
  "Map_get (fst (learn_patterns r ps (tbl, n))) k =
     map_option (\<lambda>d. d\<lparr>successTotal := successTotal d + real (count_list ps k) * r\<rparr>)
       (Map_get tbl k)"
proof (induction r ps "(tbl, n)" arbitrary: tbl n rule: learn_patterns.induct)
  case (1 rate tbl n)
  then show ?case by (cases "Map_get tbl k") simp_all
next
  case (2 rate p rest tbl n)
  then show ?case
    by (cases "Map_get tbl k")
       (auto simp: Map_has_iff Map_get_Map_set algebra_simps split: option.splits)
qed

lemma snd_learn_patterns:
  "snd (learn_patterns r ps (tbl, n)) = n + length (filter (Map_has tbl) ps)"
proof (induction r ps "(tbl, n)" arbitrary: tbl n rule: learn_patterns.induct)
  case (1 rate tbl n)
  then show ?case by simp
next
  case (2 rate p rest tbl n)
  have same: "Map_has (Map_set tbl p v) = Map_has tbl" if "Map_has tbl p" for v
    using that by (auto simp: fun_eq_iff Map_has_iff Map_get_Map_set)
  show ?case
    using 2 by (auto simp: Map_has_iff same split: option.splits)
qed

lemma learn_patterns_pair:
  "learn_patterns r ps (tbl, n) =
     (fst (learn_patterns r ps (tbl, n)), n + length (filter (Map_has tbl) ps))"
  using snd_learn_patterns [of r ps tbl n] by (metis prod.collapse)

lemma keys_learn_replays: "map fst (fst (learn_replays ss (tbl, n))) = map fst tbl"
proof (induction ss arbitrary: tbl n)
  case Nil
  then show ?case by simp
next
  case (Cons s ss)
  show ?case
    by (subst learn_replays.simps, subst learn_patterns_pair)
       (simp add: Cons.IH keys_learn_patterns)
qed

lemma Map_get_learn_replays:
  "Map_get (fst (learn_replays ss (tbl, n))) k =
     map_option
       (\<lambda>d. d\<lparr>successTotal := successTotal d +
                 (\<Sum>s\<leftarrow>ss. real (count_list (session_patterns s) k) * session_successRate s)\<rparr>)
       (Map_get tbl k)"
proof (induction ss arbitrary: tbl n)
  case Nil
  then show ?case by (cases "Map_get tbl k") simp_all
next
  case (Cons s ss)
  show ?case
    by (subst learn_replays.simps, subst learn_patterns_pair)
       (simp add: Cons.IH Map_get_learn_patterns option.map_comp comp_def add.assoc)
qed

lemma snd_learn_replays:
  "snd (learn_replays ss (tbl, n)) =
     n + (\<Sum>s\<leftarrow>ss. length (filter (Map_has tbl) (session_patterns s)))"
proof (induction ss arbitrary: tbl n)
  case Nil
  then show ?case by simp
next
  case (Cons s ss)
  have h: "Map_has (fst (learn_patterns r ps (tbl, n))) = Map_has tbl" for r ps
    by (simp add: fun_eq_iff Map_has_learn_patterns)
  show ?case
    by (subst learn_replays.simps, subst learn_patterns_pair) (simp add: Cons.IH h)
qed

lemma sum_over_qualifying:
  "(\<Sum>s\<leftarrow>filter (\<lambda>r. t \<le> session_successRate r) ss.
       real (count_list (session_patterns s) k) * session_successRate s)
   = (\<Sum>s\<leftarrow>ss. if t \<le> session_successRate s
                then real (count_list (session_patterns s) k) * session_successRate s else 0)"
  by (induction ss) simp_all

text \<open>
  C6. For every threshold \<open>t\<close>, \<open>learnFromSuccessfulReplays\<close> keeps the keys and the order
  of the pattern table and the counts of its entries, and adds to the \<open>successTotal\<close> of
  the entry of a signature \<open>k\<close> the success rate of every stored session with
  \<open>successRate \<ge> t\<close>, once per occurrence of \<open>k\<close> in the session's pattern list; a session
  below \<open>t\<close> adds nothing. It returns the number of qualifying sessions, the number of
  occurrences, in qualifying sessions, of signatures that are in the table, and the size
  of the table. The sessions and the configuration are unchanged.
\<close>

theorem learnFromSuccessfulReplays_folds:
  "replays (fst (learnFromSuccessfulReplays rs t)) = replays rs
   \<and> config (fst (learnFromSuccessfulReplays rs t)) = config rs
   \<and> map fst (patterns (fst (learnFromSuccessfulReplays rs t))) = map fst (patterns rs)
   \<and> Map_get (patterns (fst (learnFromSuccessfulReplays rs t))) k =
       map_option
         (\<lambda>d. d\<lparr>successTotal := successTotal d +
               (\<Sum>s\<leftarrow>replays rs.
                  if t \<le> session_successRate s
                  then real (count_list (session_patterns s) k) * session_successRate s
                  else 0)\<rparr>)
         (Map_get (patterns rs) k)
   \<and> snd (learnFromSuccessfulReplays rs t) =
       \<lparr>successfulReplays = length (filter (\<lambda>s. t \<le> session_successRate s) (replays rs)),
        patternsLearned =
          (\<Sum>s\<leftarrow>filter (\<lambda>s. t \<le> session_successRate s) (replays rs).
             length (filter (Map_has (patterns rs)) (session_patterns s))),
        totalPatterns = Map_size (patterns rs)\<rparr>"
proof -
  let ?q = "filter (\<lambda>r. t \<le> session_successRate r) (replays rs)"
  obtain tbl n where ln: "learn_replays ?q (patterns rs, 0) = (tbl, n)"
    by (cases "learn_replays ?q (patterns rs, 0)")
  have tbl: "tbl = fst (learn_replays ?q (patterns rs, 0))"
    and n: "n = snd (learn_replays ?q (patterns rs, 0))"
    using ln by simp_all
  have l: "learnFromSuccessfulReplays rs t =
      (rs\<lparr>patterns := tbl\<rparr>,
       \<lparr>successfulReplays = length ?q, patternsLearned = n, totalPatterns = Map_size tbl\<rparr>)"
    by (simp add: learnFromSuccessfulReplays_def ln)
  have keys: "map fst tbl = map fst (patterns rs)"
    unfolding tbl by (rule keys_learn_replays)
  then have size: "Map_size tbl = Map_size (patterns rs)"
    unfolding Map_size_def by (metis length_map)
  show ?thesis
    unfolding l
    by (simp add: keys size)
       (simp add: tbl n Map_get_learn_replays snd_learn_replays sum_over_qualifying)
qed

text \<open>
  The scenario of the specification: sessions with the signatures \<open>[m-c-k]\<close> (rate 0.9)
  and \<open>[m-c-k, c-k-m]\<close> (rate 0.4), threshold 0.7. Only the first session's occurrence is
  added to the entry of \<open>m-c-k\<close>.
\<close>

lemma scenario_store_eq:
  "scenario_store =
     \<lparr>config = default_config,
      replays =
        [\<lparr>sessionId = ''s1'', gameType = ''Roblox'', timestamp = ''t1'',
          actions = [act ''m'', act ''c'', act ''k''], session_successRate = 9 / 10,
          session_patterns = [''m-c-k'']\<rparr>,
         \<lparr>sessionId = ''s2'', gameType = ''Roblox'', timestamp = ''t2'',
          actions = [act ''m'', act ''c'', act ''k'', act ''m''], session_successRate = 4 / 10,
          session_patterns = [''m-c-k'', ''c-k-m'']\<rparr>],
      patterns = [(''m-c-k'', \<lparr>count = 2, successTotal = 0\<rparr>),
                  (''c-k-m'', \<lparr>count = 1, successTotal = 0\<rparr>)]\<rparr>"
proof -
  have u: "[0..<2] = [0, 1]" by (simp add: upt_rec)
  show ?thesis
    by (simp add: scenario_store_def record_call_def recordSession_def extractPatterns_eq
        signatures_def signature_at_def new_ReplaySystem_def default_config_def act_def
        touch_pattern_def Map_has_def Map_get_def u)
qed

theorem learnFromSuccessfulReplays_scenario:
  "Map_get (patterns (fst (learnFromSuccessfulReplays scenario_store (7 / 10)))) ''m-c-k''
     = Some \<lparr>count = 2, successTotal = 9 / 10\<rparr>
   \<and> Map_get (patterns (fst (learnFromSuccessfulReplays scenario_store (7 / 10)))) ''c-k-m''
     = Some \<lparr>count = 1, successTotal = 0\<rparr>
   \<and> snd (learnFromSuccessfulReplays scenario_store (7 / 10))
     = \<lparr>successfulReplays = 1, patternsLearned = 1, totalPatterns = 2\<rparr>"
  using learnFromSuccessfulReplays_folds [of scenario_store "7 / 10" "''m-c-k''"]
        learnFromSuccessfulReplays_folds [of scenario_store "7 / 10" "''c-k-m''"]
  by (simp add: scenario_store_eq Map_get_def Map_has_def Map_size_def)

section \<open>The replay system: recommendation\<close>

lemma score_of_Num:
  "score_of e =
     \<lparr>pattern = fst e, score_successRate = Num (rate_of e), frequency = count (snd e)\<rparr>"
  by (simp add: score_of_def rate_of_def js_div_def)

lemma scores_sort_key:
  "js_sort by_score (map score_of tbl) =
     sort_key (\<lambda>e. - (case score_successRate e of Num r \<Rightarrow> r | _ \<Rightarrow> 0)) (map score_of tbl)"
  by (rule js_sort_sort_key) (auto simp: by_score_def score_of_Num)

lemma sorted_scores:
  "sorted_wrt (\<lambda>a b. js_ge (score_successRate a) (score_successRate b))
     (js_sort by_score (map score_of tbl))"
proof -
  let ?k = "\<lambda>e. - (case score_successRate e of Num r \<Rightarrow> r | _ \<Rightarrow> 0)"
  let ?xs = "sort_key ?k (map score_of tbl)"
  have "sorted (map ?k ?xs)" by (rule sorted_sort_key)
  then have "sorted_wrt (\<lambda>a b. ?k a \<le> ?k b) ?xs"
    by (simp add: sorted_map)
  then have "sorted_wrt (\<lambda>a b. js_ge (score_successRate a) (score_successRate b)) ?xs"
    by (rule sorted_wrt_mono_rel [rotated]) (auto simp: score_of_Num)
  then show ?thesis by (simp add: scores_sort_key)
qed

text \<open>
  C7. For every \<open>topK\<close> (a number of patterns), \<open>getRecommendedPatterns\<close> returns at most
  \<open>topK\<close> entries, namely \<open>topK\<close> of them unless the table is smaller; each is the score
  of an entry of the table, with the derived success rate \<open>successTotal / count\<close> when
  \<open>count > 0\<close> and \<open>0\<close> otherwise, always a number and never \<open>NaN\<close>; the entries are listed
  in non-increasing order of that rate; and an entry with \<open>count = 0\<close> has the rate \<open>0\<close>.
\<close>

theorem getRecommendedPatterns_ranking:
  "length (getRecommendedPatterns rs ctx topK) \<le> topK
   \<and> length (getRecommendedPatterns rs ctx topK) = min topK (Map_size (patterns rs))
   \<and> list_all
        (\<lambda>e. \<exists>d. (pattern e, d) \<in> set (patterns rs) \<and> frequency e = count d
               \<and> score_successRate e =
                   Num (if 0 < count d then successTotal d / real (count d) else 0))
        (getRecommendedPatterns rs ctx topK)
   \<and> sorted_wrt (\<lambda>a b. js_ge (score_successRate a) (score_successRate b))
        (getRecommendedPatterns rs ctx topK)
   \<and> list_all (\<lambda>e. frequency e = 0 \<longrightarrow> score_successRate e = Num 0)
        (getRecommendedPatterns rs ctx topK)"
proof -
  let ?all = "js_sort by_score (map score_of (patterns rs))"
  have len: "length ?all = length (patterns rs)"
    by (simp add: scores_sort_key)
  have mem: "e \<in> score_of ` set (patterns rs)" if "e \<in> set (take topK ?all)" for e
    using that set_js_sort [of by_score "map score_of (patterns rs)"]
    by (auto dest: in_set_takeD)
  have 1: "list_all
        (\<lambda>e. \<exists>d. (pattern e, d) \<in> set (patterns rs) \<and> frequency e = count d
               \<and> score_successRate e =
                   Num (if 0 < count d then successTotal d / real (count d) else 0))
        (take topK ?all)"
    unfolding list_all_iff
  proof
    fix e assume "e \<in> set (take topK ?all)"
    then obtain k d where "(k, d) \<in> set (patterns rs)" "e = score_of (k, d)"
      using mem by fastforce
    then show "\<exists>d. (pattern e, d) \<in> set (patterns rs) \<and> frequency e = count d
               \<and> score_successRate e =
                   Num (if 0 < count d then successTotal d / real (count d) else 0)"
      by (auto simp: score_of_Num rate_of_def)
  qed
  have 2: "list_all (\<lambda>e. frequency e = 0 \<longrightarrow> score_successRate e = Num 0) (take topK ?all)"
    using 1 unfolding list_all_iff by fastforce
  have 3: "sorted_wrt (\<lambda>a b. js_ge (score_successRate a) (score_successRate b)) (take topK ?all)"
    using sorted_scores [of "patterns rs"] by (rule sorted_wrt_take)
  show ?thesis
    unfolding getRecommendedPatterns_def using 1 2 3 by (simp add: len Map_size_def)
qed

lemma recommend_scored_store:
  "getRecommendedPatterns scored_store ctx 3 =
     [\<lparr>pattern = ''c-d-e'', score_successRate = Num (9 / 10), frequency = 1\<rparr>,
      \<lparr>pattern = ''a-b-c'', score_successRate = Num (1 / 2), frequency = 2\<rparr>,
      \<lparr>pattern = ''b-c-d'', score_successRate = Num 0, frequency = 0\<rparr>]"
  by (simp add: getRecommendedPatterns_def scored_store_def score_of_def js_div_def by_score_def)

theorem getRecommendedPatterns_ranking_witness:
  "getRecommendedPatterns scored_store Undefined 3 =
     [\<lparr>pattern = ''c-d-e'', score_successRate = Num (9 / 10), frequency = 1\<rparr>,
      \<lparr>pattern = ''a-b-c'', score_successRate = Num (1 / 2), frequency = 2\<rparr>,
      \<lparr>pattern = ''b-c-d'', score_successRate = Num 0, frequency = 0\<rparr>]
   \<and> list_all (\<lambda>e. frequency e = 0 \<longrightarrow> score_successRate e = Num 0)
         (getRecommendedPatterns scored_store Undefined 3)
   \<and> length (getRecommendedPatterns scored_store Undefined 2) \<le> 2"
  using getRecommendedPatterns_ranking [of scored_store Undefined 3]
        getRecommendedPatterns_ranking [of scored_store Undefined 2] recommend_scored_store
  by simp

text \<open>
  C10. The result of \<open>getRecommendedPatterns\<close> does not depend on \<open>currentContext\<close>: on the
  same table and \<open>topK\<close>, two contexts give the same list.
\<close>

theorem getRecommendedPatterns_ignores_context:
  "getRecommendedPatterns rs context1 topK = getRecommendedPatterns rs context2 topK"
  by (simp add: getRecommendedPatterns_def)

end
